theory Spec2Isabelle
  imports Main "HOL-Library.Word"
begin

section \<open>HID report descriptors: the item codec of usb_protocol/types/descriptors/hid.py\<close>

text \<open>
  The formats of the source are declared with the Python library \<^emph>\<open>construct\<close>. The
  embedding gives each construct combinator the source uses a parsing function (bytes to
  a value and the unread rest) and a building function (a value to bytes); an exception
  is a value of the type \<open>error\<close>.
\<close>

type_synonym byte = "8 word"

datatype error =
    StreamError
  | AttributeError
  | KeyError string
  | TypeError
  | RangeError
  | IntegerError
  | IndexError
  | ValueError
  | FormatFieldError

subsection \<open>The prefix enumeration\<close>

datatype HIDPrefix =
    INPUT | OUTPUT | FEATURE | COLLECTION | END_COLLECTION
  | USAGE_PAGE | LOGICAL_MIN | LOGICAL_MAX | PHYSICAL_MIN | PHYSICAL_MAX
  | UNIT_EXPONENT | UNIT | REPORT_SIZE | REPORT_ID | REPORT_COUNT | PUSH | POP
  | USAGE | USAGE_MIN | USAGE_MAX | DESIGNATOR_IDX | DESIGNATOR_MIN | DESIGNATOR_MAX
  | STRING_IDX | STRING_MIN | STRING_MAX | DELIMITER

text \<open>The integer value of each member of the \<open>IntEnum\<close> (the source writes them in binary).\<close>

fun HIDPrefix_value :: "HIDPrefix \<Rightarrow> nat" where
  "HIDPrefix_value INPUT = 32"
| "HIDPrefix_value OUTPUT = 36"
| "HIDPrefix_value FEATURE = 44"
| "HIDPrefix_value COLLECTION = 40"
| "HIDPrefix_value END_COLLECTION = 48"
| "HIDPrefix_value USAGE_PAGE = 1"
| "HIDPrefix_value LOGICAL_MIN = 5"
| "HIDPrefix_value LOGICAL_MAX = 9"
| "HIDPrefix_value PHYSICAL_MIN = 13"
| "HIDPrefix_value PHYSICAL_MAX = 17"
| "HIDPrefix_value UNIT_EXPONENT = 21"
| "HIDPrefix_value UNIT = 25"
| "HIDPrefix_value REPORT_SIZE = 29"
| "HIDPrefix_value REPORT_ID = 33"
| "HIDPrefix_value REPORT_COUNT = 37"
| "HIDPrefix_value PUSH = 41"
| "HIDPrefix_value POP = 45"
| "HIDPrefix_value USAGE = 2"
| "HIDPrefix_value USAGE_MIN = 6"
| "HIDPrefix_value USAGE_MAX = 10"
| "HIDPrefix_value DESIGNATOR_IDX = 14"
| "HIDPrefix_value DESIGNATOR_MIN = 18"
| "HIDPrefix_value DESIGNATOR_MAX = 22"
| "HIDPrefix_value STRING_IDX = 30"
| "HIDPrefix_value STRING_MIN = 34"
| "HIDPrefix_value STRING_MAX = 38"
| "HIDPrefix_value DELIMITER = 42"

definition HIDPrefix_members :: "HIDPrefix list" where
  "HIDPrefix_members =
     [INPUT, OUTPUT, FEATURE, COLLECTION, END_COLLECTION,
      USAGE_PAGE, LOGICAL_MIN, LOGICAL_MAX, PHYSICAL_MIN, PHYSICAL_MAX,
      UNIT_EXPONENT, UNIT, REPORT_SIZE, REPORT_ID, REPORT_COUNT, PUSH, POP,
      USAGE, USAGE_MIN, USAGE_MAX, DESIGNATOR_IDX, DESIGNATOR_MIN, DESIGNATOR_MAX,
      STRING_IDX, STRING_MIN, STRING_MAX, DELIMITER]"

subsection \<open>Bits and bytes (construct's \<open>Bitwise\<close>, \<open>BitsInteger\<close>, \<open>Flag\<close>)\<close>

text \<open>
  \<open>Bitwise\<close> turns each byte into its eight bits, most significant first, lets the inner
  format read or write bits, and packs the bits written back into bytes.
\<close>

definition byte2bits :: "byte \<Rightarrow> bool list" where
  "byte2bits b = map (bit b) [7, 6, 5, 4, 3, 2, 1, 0]"

definition bytes2bits :: "byte list \<Rightarrow> bool list" where
  "bytes2bits bs = concat (map byte2bits bs)"

text \<open>\<open>bits2integer\<close>: \<open>number = (number << 1) | bit\<close> over the bits in order.\<close>

definition bits2integer :: "bool list \<Rightarrow> nat" where
  "bits2integer bits = foldl (\<lambda>number b. 2 * number + of_bool b) 0 bits"

definition bits2byte :: "bool list \<Rightarrow> byte" where
  "bits2byte bits = foldl (\<lambda>number b. 2 * number + of_bool b) 0 bits"

fun bits2bytes :: "bool list \<Rightarrow> byte list" where
  "bits2bytes (b7 # b6 # b5 # b4 # b3 # b2 # b1 # b0 # rest) =
     bits2byte [b7, b6, b5, b4, b3, b2, b1, b0] # bits2bytes rest"
| "bits2bytes _ = []"

text \<open>
  \<open>integer2bits number width\<close>: the \<open>width\<close> low bits of the number, most significant
  first. \<open>BitsInteger\<close> refuses a number that does not fit the width (older releases
  of construct cut it to the width instead; every number built below fits).
\<close>

definition integer2bits :: "nat \<Rightarrow> nat \<Rightarrow> bool list" where
  "integer2bits number width = map (bit number) (rev [0..<width])"

definition BitsInteger_build :: "nat \<Rightarrow> nat \<Rightarrow> error + bool list" where
  "BitsInteger_build width number =
     (if number < 2 ^ width then Inr (integer2bits number width) else Inl IntegerError)"

subsection \<open>Flag records (\<open>BitStruct\<close> of named \<open>Flag\<close>s)\<close>

text \<open>
  A \<open>BitStruct\<close> whose fields are all \<open>Flag\<close>s is given by its field names in the order
  of declaration. The first field is read from the most significant bit of the first
  byte. The parsed value is a container keyed by the field names, kept as an
  association list in field order.
\<close>

definition ItemFlags2 :: "string list" where
  "ItemFlags2 =
     [''reserved6'', ''reserved5'', ''reserved4'', ''reserved3'',
      ''reserved2'', ''reserved1'', ''reserved0'', ''bitfield_bufferedbytes'',
      ''volatile'', ''null'', ''nPreferred'', ''nLinear'',
      ''wrap'', ''absolute_relative'', ''array_variable'', ''data_constant'']"

definition ItemFlags1 :: "string list" where
  "ItemFlags1 =
     [''volatile'', ''null'', ''nPreferred'', ''nLinear'',
      ''wrap'', ''absolute_relative'', ''array_variable'', ''data_constant'']"

type_synonym container = "(string \<times> bool) list"

definition BitStruct_sizeof :: "string list \<Rightarrow> nat" where
  "BitStruct_sizeof names = length names div 8"

definition BitStruct_parse :: "string list \<Rightarrow> byte list \<Rightarrow> error + (container \<times> byte list)" where
  "BitStruct_parse names stream =
     (let n = BitStruct_sizeof names in
      if length stream < n then Inl StreamError
      else Inr (zip names (bytes2bits (take n stream)), drop n stream))"

text \<open>
  Building looks every field up by name in the object it is given, in field order;
  a field the object lacks raises \<open>KeyError\<close> (a \<open>Flag\<close> has no default).
\<close>

fun Struct_build_flags :: "string list \<Rightarrow> container \<Rightarrow> error + bool list" where
  "Struct_build_flags [] obj = Inr []"
| "Struct_build_flags (name # names) obj =
     (case map_of obj name of
        None \<Rightarrow> Inl (KeyError name)
      | Some v \<Rightarrow>
          (case Struct_build_flags names obj of
             Inl e \<Rightarrow> Inl e
           | Inr bits \<Rightarrow> Inr (v # bits)))"

definition BitStruct_build :: "string list \<Rightarrow> container \<Rightarrow> error + byte list" where
  "BitStruct_build names obj =
     (case Struct_build_flags names obj of
        Inl e \<Rightarrow> Inl e
      | Inr bits \<Rightarrow> Inr (bits2bytes bits))"

subsection \<open>Items\<close>

text \<open>
  What \<open>construct.Enum\<close> returns on parsing: the member's name carrying its integer
  value (\<open>EnumIntegerString\<close>, with the attribute \<open>intvalue\<close>) when the integer is
  mapped, and the bare integer (\<open>EnumInteger\<close>, without that attribute) otherwise.
\<close>

datatype enum_obj = EnumIntegerString HIDPrefix | EnumInteger nat

record 'p header =
  prefix :: 'p
  bSize :: nat

datatype payload = Container container | ListContainer "byte list" | PyNone

record ('p, 'd) item =
  bHeader :: "'p header"
  data :: 'd

type_synonym parsed_item = "(enum_obj, payload) item"

definition Enum_decode :: "nat \<Rightarrow> enum_obj" where
  "Enum_decode n =
     (case find (\<lambda>p. HIDPrefix_value p = n) HIDPrefix_members of
        Some p \<Rightarrow> EnumIntegerString p
      | None \<Rightarrow> EnumInteger n)"

definition Enum_encode :: "enum_obj \<Rightarrow> nat" where
  "Enum_encode v = (case v of EnumIntegerString p \<Rightarrow> HIDPrefix_value p | EnumInteger n \<Rightarrow> n)"

text \<open>The \<open>bHeader\<close> bit structure: a 6-bit enumerated prefix, then a 2-bit size.\<close>

definition bHeader_parse :: "byte list \<Rightarrow> error + (enum_obj header \<times> byte list)" where
  "bHeader_parse stream =
     (case stream of
        [] \<Rightarrow> Inl StreamError
      | b # rest \<Rightarrow>
          (let bits = byte2bits b in
           Inr (\<lparr>prefix = Enum_decode (bits2integer (take 6 bits)),
                 bSize = bits2integer (drop 6 bits)\<rparr>, rest)))"

definition bHeader_build_int :: "nat \<Rightarrow> nat \<Rightarrow> error + byte list" where
  "bHeader_build_int p s =
     (case BitsInteger_build 6 p of
        Inl e \<Rightarrow> Inl e
      | Inr pbits \<Rightarrow>
          (case BitsInteger_build 2 s of
             Inl e \<Rightarrow> Inl e
           | Inr sbits \<Rightarrow> Inr (bits2bytes (pbits @ sbits))))"

definition bHeader_build :: "enum_obj header \<Rightarrow> error + byte list" where
  "bHeader_build h = bHeader_build_int (Enum_encode (prefix h)) (bSize h)"

text \<open>
  \<open>HasItemFlags\<close>: the prefix parsed is not a \<open>HIDPrefix\<close> instance, so its
  \<open>intvalue\<close> is taken, which a bare \<open>EnumInteger\<close> does not have; then membership in
  \<open>{INPUT, OUTPUT, FEATURE}\<close> compares integer values. (The function also prints the
  type of the prefix; output is not part of the state here.)
\<close>

definition HasItemFlags :: "enum_obj header \<Rightarrow> error + bool" where
  "HasItemFlags h =
     (case prefix h of
        EnumInteger n \<Rightarrow> Inl AttributeError
      | EnumIntegerString p \<Rightarrow>
          Inr (HIDPrefix_value p \<in>
                 {HIDPrefix_value INPUT, HIDPrefix_value OUTPUT, HIDPrefix_value FEATURE}))"

definition hid_item_length :: "nat list" where
  "hid_item_length = [0, 1, 2, 4]"

text \<open>The formats a payload can have: \<open>construct.Byte[n]\<close> or a flag record.\<close>

datatype subcon = ByteArray nat | BitStruct "string list"

definition hid_item_flags :: "nat \<rightharpoonup> subcon" where
  "hid_item_flags =
     map_of (enumerate 0 [ByteArray 0, BitStruct ItemFlags1, BitStruct ItemFlags2, ByteArray 4])"

definition subcon_sizeof :: "subcon \<Rightarrow> nat" where
  "subcon_sizeof sc = (case sc of ByteArray n \<Rightarrow> n | BitStruct names \<Rightarrow> BitStruct_sizeof names)"

definition subcon_parse :: "subcon \<Rightarrow> byte list \<Rightarrow> error + (payload \<times> byte list)" where
  "subcon_parse sc stream =
     (case sc of
        ByteArray n \<Rightarrow>
          (if length stream < n then Inl StreamError
           else Inr (ListContainer (take n stream), drop n stream))
      | BitStruct names \<Rightarrow>
          (case BitStruct_parse names stream of
             Inl e \<Rightarrow> Inl e
           | Inr (c, rest) \<Rightarrow> Inr (Container c, rest)))"

text \<open>
  Building with an object of the wrong kind. \<open>Byte[n]\<close> first compares the length of
  the object with \<open>n\<close> (\<open>RangeError\<close>), which for a container is the number of its
  keys, and then builds every element as a byte, which a key is not; \<open>None\<close> has no
  length. A flag record given \<open>None\<close> builds from an empty container, so its first
  field is missing; it cannot read its fields from a list.
\<close>

definition subcon_build :: "subcon \<Rightarrow> payload \<Rightarrow> error + byte list" where
  "subcon_build sc obj =
     (case sc of
        ByteArray n \<Rightarrow>
          (case obj of
             ListContainer bs \<Rightarrow> (if length bs = n then Inr bs else Inl RangeError)
           | Container c \<Rightarrow>
               (if length (remdups (map fst c)) \<noteq> n then Inl RangeError
                else if c = [] then Inr []
                else Inl FormatFieldError)
           | PyNone \<Rightarrow> Inl TypeError)
      | BitStruct names \<Rightarrow>
          (case obj of
             Container c \<Rightarrow> BitStruct_build names c
           | PyNone \<Rightarrow> BitStruct_build names []
           | ListContainer bs \<Rightarrow> Inl TypeError))"

text \<open>
  The format selected for the \<open>data\<close> field:
  \<open>IfThenElse(HasItemFlags, Switch(bSize, _hid_item_flags), Byte[_hid_item_length[bSize]])\<close>.
  A \<open>Switch\<close> key without a case selects \<open>Pass\<close> (\<open>None\<close> here).
\<close>

definition data_subcon :: "enum_obj header \<Rightarrow> error + subcon option" where
  "data_subcon h =
     (case HasItemFlags h of
        Inl e \<Rightarrow> Inl e
      | Inr True \<Rightarrow> Inr (hid_item_flags (bSize h))
      | Inr False \<Rightarrow>
          (if bSize h < length hid_item_length
           then Inr (Some (ByteArray (hid_item_length ! bSize h)))
           else Inl IndexError))"

definition data_parse :: "enum_obj header \<Rightarrow> byte list \<Rightarrow> error + (payload \<times> byte list)" where
  "data_parse h stream =
     (case data_subcon h of
        Inl e \<Rightarrow> Inl e
      | Inr None \<Rightarrow> Inr (PyNone, stream)
      | Inr (Some sc) \<Rightarrow> subcon_parse sc stream)"

definition data_build :: "enum_obj header \<Rightarrow> payload \<Rightarrow> error + byte list" where
  "data_build h obj =
     (case data_subcon h of
        Inl e \<Rightarrow> Inl e
      | Inr None \<Rightarrow> Inr []
      | Inr (Some sc) \<Rightarrow> subcon_build sc obj)"

text \<open>
  Modelled from the spec: \<open>DescriptorFormat\<close> is declared in usb_protocol/types/descriptor.py,
  which is not among the sources at hand. It is taken to be construct's \<open>Struct\<close>: the
  fields \<open>bHeader\<close> and \<open>data\<close> are parsed and built in this order, and an item is its
  header byte followed by its payload.
\<close>

definition ReportDescriptorItem_parse :: "byte list \<Rightarrow> error + (parsed_item \<times> byte list)" where
  "ReportDescriptorItem_parse stream =
     (case bHeader_parse stream of
        Inl e \<Rightarrow> Inl e
      | Inr (h, rest) \<Rightarrow>
          (case data_parse h rest of
             Inl e \<Rightarrow> Inl e
           | Inr (d, rest') \<Rightarrow> Inr (\<lparr>bHeader = h, data = d\<rparr>, rest')))"

definition ReportDescriptorItem_build :: "parsed_item \<Rightarrow> error + byte list" where
  "ReportDescriptorItem_build it =
     (case bHeader_build (bHeader it) of
        Inl e \<Rightarrow> Inl e
      | Inr hb \<Rightarrow>
          (case data_build (bHeader it) (data it) of
             Inl e \<Rightarrow> Inl e
           | Inr db \<Rightarrow> Inr (hb @ db)))"

text \<open>
  \<open>ReportDescriptor = GreedyRange(ReportDescriptorItem)\<close>. Parsing repeats the item
  format; the first exception of any kind ends the loop, the stream is put back to
  where that item began, and the items parsed so far are returned. So parsing a report
  descriptor never raises. Building builds every item in order and lets an exception
  through.
\<close>

function ReportDescriptor_parse :: "byte list \<Rightarrow> parsed_item list" where
  "ReportDescriptor_parse stream =
     (case ReportDescriptorItem_parse stream of
        Inl e \<Rightarrow> []
      | Inr (it, rest) \<Rightarrow> it # ReportDescriptor_parse rest)"
  by pat_completeness auto
termination
  by (relation "measure length")
    (auto simp: ReportDescriptorItem_parse_def bHeader_parse_def data_parse_def
      subcon_parse_def BitStruct_parse_def Let_def
      split: list.splits sum.splits option.splits subcon.splits if_splits prod.splits)

fun ReportDescriptor_build :: "parsed_item list \<Rightarrow> error + byte list" where
  "ReportDescriptor_build [] = Inr []"
| "ReportDescriptor_build (it # items) =
     (case ReportDescriptorItem_build it of
        Inl e \<Rightarrow> Inl e
      | Inr b \<Rightarrow>
          (case ReportDescriptor_build items of
             Inl e \<Rightarrow> Inl e
           | Inr bs \<Rightarrow> Inr (b @ bs)))"

text \<open>
  The wire format in the words of the specification: a buffer is validly encoded when
  it is a sequence of items, each a header byte whose top six bits are a member of the
  prefix enumeration, followed by as many payload bytes as the size-class table gives
  for the bottom two bits, all of them present.
\<close>

fun valid_encoding :: "byte list \<Rightarrow> bool" where
  "valid_encoding [] = True"
| "valid_encoding (h # rest) =
     (unat (drop_bit 2 h) \<in> HIDPrefix_value ` set HIDPrefix_members \<and>
      hid_item_length ! unat (take_bit 2 h) \<le> length rest \<and>
      valid_encoding (drop (hid_item_length ! unat (take_bit 2 h)) rest))"

section \<open>The builder of usb_protocol/emitters/descriptors/hid.py\<close>

text \<open>
  A payload argument of \<open>add_report_item\<close> is an integer or a bytes object. An item
  under construction (\<open>ReportDescriptorItemEmitter\<close>) holds the fields \<open>bHeader\<close>, with
  the prefix as the \<open>HIDPrefix\<close> member given, and \<open>data\<close>, the tuple of the payload
  arguments.
\<close>

datatype pyobj = PyInt int | PyBytes "byte list"

type_synonym ReportDescriptorItemEmitter = "(HIDPrefix, pyobj list) item"

text \<open>
  An entry of \<open>_reports\<close>: raw bytes, or an object with an \<open>emit\<close> method.
\<close>

datatype report = Bytes "byte list" | Emitter ReportDescriptorItemEmitter

text \<open>
  The state of a \<open>HIDDescriptor\<close> emitter: the list \<open>_reports\<close>, the field
  \<open>wDescriptorLength\<close> (unset until \<open>_pre_emit\<close> assigns it), and the parent
  descriptor collection.

  Modelled from the spec: the descriptor collection (\<open>DeviceDescriptorCollection\<close>) is
  not among the sources at hand. It is the descriptor-table collaborator of the
  specification, whose one capability is to register a byte blob as a descriptor of a
  given type; it is kept as the list of the entries registered, in order.
\<close>

record HIDDescriptor =
  reports :: "report list"
  wDescriptorLength :: "nat option"
  parent_descriptor :: "(byte list \<times> nat) list"

definition HIDDescriptor_init :: "(byte list \<times> nat) list \<Rightarrow> HIDDescriptor" where
  "HIDDescriptor_init parent =
     \<lparr>reports = [], wDescriptorLength = None, parent_descriptor = parent\<rparr>"

definition add_descriptor :: "byte list \<Rightarrow> nat \<Rightarrow> (byte list \<times> nat) list \<Rightarrow> (byte list \<times> nat) list" where
  "add_descriptor descriptor descriptor_type table = table @ [(descriptor, descriptor_type)]"

definition add_report_raw :: "HIDDescriptor \<Rightarrow> report \<Rightarrow> HIDDescriptor" where
  "add_report_raw self report_data = self\<lparr>reports := reports self @ [report_data]\<rparr>"

text \<open>Python's \<open>list.index\<close>: the first position of the value, \<open>ValueError\<close> if absent.\<close>

fun list_index :: "'a list \<Rightarrow> 'a \<Rightarrow> nat option" where
  "list_index [] x = None"
| "list_index (y # ys) x = (if y = x then Some 0 else map_option Suc (list_index ys x))"

definition add_report_item :: "HIDDescriptor \<Rightarrow> HIDPrefix \<Rightarrow> pyobj list \<Rightarrow> error + HIDDescriptor" where
  "add_report_item self report_prefix report_data =
     (case list_index hid_item_length (length report_data) of
        None \<Rightarrow> Inl ValueError
      | Some report_len \<Rightarrow>
          Inr (self\<lparr>reports := reports self @
                 [Emitter \<lparr>bHeader = \<lparr>prefix = report_prefix, bSize = report_len\<rparr>,
                           data = report_data\<rparr>]\<rparr>))"

text \<open>
  The keyword arguments of \<open>add_inpout_item\<close>, and the value each has when the caller
  leaves it unset.
\<close>

record inpout_kwargs =
  data_constant :: bool
  array_variable :: bool
  absolute_relative :: bool
  wrap :: bool
  linear :: bool
  preferred :: bool
  null_flag :: bool
  volatile :: bool
  bitfield_bufferedbytes :: bool

definition inpout_defaults :: inpout_kwargs where
  "inpout_defaults =
     \<lparr>data_constant = False, array_variable = True, absolute_relative = False,
      wrap = False, linear = False, preferred = True, null_flag = False,
      volatile = False, bitfield_bufferedbytes = False\<rparr>"

text \<open>The first half of \<open>add_inpout_item\<close>: the flag bytes \<open>itmf.build({...})\<close>.\<close>

definition inpout_item_flags :: "inpout_kwargs \<Rightarrow> error + byte list" where
  "inpout_item_flags kw =
     (let itmf = (if bitfield_bufferedbytes kw then ItemFlags2 else ItemFlags1) in
      BitStruct_build itmf
        [(''data_constant'', data_constant kw),
         (''array_variable'', array_variable kw),
         (''absolute_relative'', absolute_relative kw),
         (''wrap'', wrap kw),
         (''nLinear'', \<not> linear kw),
         (''nPreferred'', \<not> preferred kw),
         (''null'', null_flag kw),
         (''volatile'', volatile kw)])"

definition add_inpout_item :: "HIDDescriptor \<Rightarrow> HIDPrefix \<Rightarrow> inpout_kwargs \<Rightarrow> error + HIDDescriptor" where
  "add_inpout_item self item kw =
     (case inpout_item_flags kw of
        Inl e \<Rightarrow> Inl e
      | Inr item_flags \<Rightarrow> add_report_item self item [PyBytes item_flags])"

definition add_input_item :: "HIDDescriptor \<Rightarrow> inpout_kwargs \<Rightarrow> error + HIDDescriptor" where
  "add_input_item self kw = add_inpout_item self INPUT kw"

definition add_output_item :: "HIDDescriptor \<Rightarrow> inpout_kwargs \<Rightarrow> error + HIDDescriptor" where
  "add_output_item self kw = add_inpout_item self OUTPUT kw"

text \<open>
  \<open>_pre_emit\<close>. The \<open>emit\<close> method of an item under construction comes from
  \<open>emitter_for_format\<close>, which is not among the sources at hand; it is the parameter
  \<open>emit\<close>, and may raise.
\<close>

fun report_emit :: "(ReportDescriptorItemEmitter \<Rightarrow> error + byte list) \<Rightarrow> report \<Rightarrow> error + byte list" where
  "report_emit emit (Bytes b) = Inr b"
| "report_emit emit (Emitter e) = emit e"

fun emit_reports :: "(ReportDescriptorItemEmitter \<Rightarrow> error + byte list) \<Rightarrow> report list \<Rightarrow> error + byte list list" where
  "emit_reports emit [] = Inr []"
| "emit_reports emit (r # rs) =
     (case report_emit emit r of
        Inl e \<Rightarrow> Inl e
      | Inr b \<Rightarrow>
          (case emit_reports emit rs of
             Inl e \<Rightarrow> Inl e
           | Inr bs \<Rightarrow> Inr (b # bs)))"

definition pre_emit :: "(ReportDescriptorItemEmitter \<Rightarrow> error + byte list) \<Rightarrow> HIDDescriptor \<Rightarrow> error + HIDDescriptor" where
  "pre_emit emit self =
     (case emit_reports emit (reports self) of
        Inl e \<Rightarrow> Inl e
      | Inr chunks \<Rightarrow>
          (let report_descriptor = concat chunks;
               descriptor_len = length report_descriptor
           in Inr (self\<lparr>wDescriptorLength := Some descriptor_len,
                        parent_descriptor :=
                          add_descriptor report_descriptor 0x22 (parent_descriptor self)\<rparr>)))"

text \<open>
  What a contribution contributes to the report descriptor, given the encoding of
  every item: raw bytes pass through unchanged, an item contributes its encoding.
\<close>

fun report_encoding :: "(ReportDescriptorItemEmitter \<Rightarrow> byte list) \<Rightarrow> report \<Rightarrow> byte list" where
  "report_encoding enc (Bytes b) = b"
| "report_encoding enc (Emitter e) = enc e"

text \<open>
  Modelled from the spec: the formats that \<open>DescriptorField\<close> and \<open>DescriptorNumber\<close>
  give the fields of \<open>HIDDescriptor\<close> are declared in usb_protocol/types/descriptor.py,
  which is not among the sources at hand. The fields and their defaults are those the
  source declares (bLength the constant 9, bDescriptorType 33, bcdHID 1.11,
  bCountryCode 0, bNumDescriptors 1, bRepDescriptorType 34, wDescriptorLength without
  a default). By the specification the header is a fixed record of nine bytes,
  little-endian, with bcdHID and wDescriptorLength in two bytes each; the source's test
  parses 09 21 11 01 00 01 22 3F 00 to these defaults and the length 0x3F. A length that
  does not fit two bytes cannot be serialised, and a length that was never set is a
  missing field. \<open>Int16ul_parse\<close> reads the two bytes of the length back.
\<close>

definition HIDDescriptor_build :: "nat option \<Rightarrow> error + byte list" where
  "HIDDescriptor_build wLength =
     (case wLength of
        None \<Rightarrow> Inl (KeyError ''wDescriptorLength'')
      | Some n \<Rightarrow>
          (if n < 65536
           then Inr [0x09, 0x21, 0x11, 0x01, 0x00, 0x01, 0x22, of_nat (n mod 256), of_nat (n div 256)]
           else Inl FormatFieldError))"

definition Int16ul_parse :: "byte \<Rightarrow> byte \<Rightarrow> nat" where
  "Int16ul_parse lo hi = unat lo + 256 * unat hi"

text \<open>
  Modelled from the spec: the method \<open>emit\<close> of the emitter's base class
  (\<open>ComplexDescriptorEmitter\<close>, declared in usb_protocol/emitters/descriptor.py) is not
  among the sources at hand. By the specification it runs the hook \<open>_pre_emit\<close>, then
  serialises the header with the length the hook has set, and returns the header.
\<close>

definition HIDDescriptor_emit :: "(ReportDescriptorItemEmitter \<Rightarrow> error + byte list) \<Rightarrow> HIDDescriptor \<Rightarrow> error + (byte list \<times> HIDDescriptor)" where
  "HIDDescriptor_emit emit self =
     (case pre_emit emit self of
        Inl e \<Rightarrow> Inl e
      | Inr self' \<Rightarrow>
          (case HIDDescriptor_build (wDescriptorLength self') of
             Inl e \<Rightarrow> Inl e
           | Inr header \<Rightarrow> Inr (header, self')))"

text \<open>
  A payload format is well formed when its flag record, if it is one, has distinct
  field names and fills whole bytes. Every format of the source is.
\<close>

definition wf_subcon :: "subcon \<Rightarrow> bool" where
  "wf_subcon sc =
     (case sc of
        ByteArray n \<Rightarrow> True
      | BitStruct names \<Rightarrow> distinct names \<and> length names mod 8 = 0)"

section \<open>Bits, bytes and containers: auxiliary facts\<close>

lemma foldl_horner:
  "foldl (\<lambda>number b. 2 * number + of_bool b) a bits
     = horner_sum of_bool 2 (rev bits) + 2 ^ length bits * (a :: 'a :: comm_semiring_1)"
  by (induction bits arbitrary: a) (simp_all add: horner_sum_append algebra_simps)

lemma bits2integer_horner: "bits2integer bits = horner_sum of_bool 2 (rev bits)"
  by (simp add: bits2integer_def foldl_horner)

lemma bits2byte_horner: "bits2byte bits = horner_sum of_bool 2 (rev bits)"
  by (simp add: bits2byte_def foldl_horner)

lemma bits2integer_snoc: "bits2integer (bits @ [b]) = 2 * bits2integer bits + of_bool b"
  by (simp add: bits2integer_def)

lemma bits2integer_less: "bits2integer bits < 2 ^ length bits"
  by (induction bits rule: rev_induct) (simp_all add: bits2integer_snoc bits2integer_def)

lemma integer2bits_bits2integer: "integer2bits (bits2integer bits) (length bits) = bits"
proof (rule nth_equalityI)
  show "length (integer2bits (bits2integer bits) (length bits)) = length bits"
    by (simp add: integer2bits_def)
next
  fix i assume "i < length (integer2bits (bits2integer bits) (length bits))"
  then have i: "i < length bits" by (simp add: integer2bits_def)
  then show "integer2bits (bits2integer bits) (length bits) ! i = bits ! i"
    by (auto simp: integer2bits_def bits2integer_horner bit_horner_sum_bit_iff rev_nth)
qed

lemma length_byte2bits: "length (byte2bits b) = 8"
  by (simp add: byte2bits_def)

lemma rev_upt8: "rev [0..<8] = [7, 6, 5, 4, 3, 2, 1, 0::nat]"
  by (simp add: upt_rec)

lemma bits2byte_byte2bits: "bits2byte (byte2bits b) = b"
proof -
  have "byte2bits b = rev (map (bit b) [0..<8])"
    by (simp add: byte2bits_def rev_map rev_upt8)
  then have "bits2byte (byte2bits b) = take_bit 8 b"
    by (simp add: bits2byte_horner horner_sum_bit_eq_take_bit)
  then show ?thesis by (simp add: take_bit_word_eq_self)
qed

lemma bits2integer_take6: "bits2integer (take 6 (byte2bits h)) = unat (drop_bit 2 h)"
proof -
  have "take 6 (byte2bits h) = rev (map (bit (unat (drop_bit 2 h))) [0..<6])"
    by (simp add: byte2bits_def upt_rec bit_drop_bit_eq bit_unsigned_iff)
  then have "bits2integer (take 6 (byte2bits h)) = take_bit 6 (unat (drop_bit 2 h))"
    by (simp add: bits2integer_horner horner_sum_bit_eq_take_bit)
  moreover have "unat (drop_bit 2 h) < 2 ^ 6"
    using unsigned_less [of h, where ?'a = nat]
    by (simp add: unat_drop_bit_eq drop_bit_eq_div unat_div)
  ultimately show ?thesis
    by (simp add: take_bit_nat_eq_self)
qed

lemma bits2integer_drop6: "bits2integer (drop 6 (byte2bits h)) = unat (take_bit 2 h)"
proof -
  have "drop 6 (byte2bits h) = rev (map (bit (unat h)) [0..<2])"
    by (simp add: byte2bits_def upt_rec bit_unsigned_iff)
  then have "bits2integer (drop 6 (byte2bits h)) = take_bit 2 (unat h)"
    by (simp add: bits2integer_horner horner_sum_bit_eq_take_bit)
  then show ?thesis
    by (simp add: unsigned_take_bit_eq)
qed

lemma bits2bytes_byte2bits: "bits2bytes (byte2bits b @ rest) = b # bits2bytes rest"
proof -
  have "bits2bytes (byte2bits b @ rest) = bits2byte (byte2bits b) # bits2bytes rest"
    by (simp add: byte2bits_def)
  then show ?thesis by (simp add: bits2byte_byte2bits)
qed

lemma bits2bytes_bytes2bits: "bits2bytes (bytes2bits bs) = bs"
  by (induction bs) (simp_all add: bytes2bits_def bits2bytes_byte2bits)

lemma length_bytes2bits: "length (bytes2bits bs) = 8 * length bs"
  by (induction bs) (simp_all add: bytes2bits_def length_byte2bits)

lemma Struct_build_flags_nth:
  "length bits = length names \<Longrightarrow>
   (\<And>i. i < length names \<Longrightarrow> map_of obj (names ! i) = Some (bits ! i)) \<Longrightarrow>
   Struct_build_flags names obj = Inr bits"
proof (induction names arbitrary: bits)
  case Nil
  then show ?case by simp
next
  case (Cons name names)
  then obtain b bs where bits: "bits = b # bs"
    by (cases bits) auto
  have hd: "map_of obj name = Some b"
    using Cons.prems(2) [of 0] bits by simp
  have "Struct_build_flags names obj = Inr bs"
  proof (rule Cons.IH)
    show "length bs = length names" using Cons.prems(1) bits by simp
    fix i assume "i < length names"
    then show "map_of obj (names ! i) = Some (bs ! i)"
      using Cons.prems(2) [of "Suc i"] bits by simp
  qed
  with hd bits show ?case by simp
qed

lemma Struct_build_flags_zip:
  "distinct names \<Longrightarrow> length bits = length names \<Longrightarrow>
   Struct_build_flags names (zip names bits) = Inr bits"
  by (rule Struct_build_flags_nth) (simp_all add: map_of_zip_nth)

lemma Enum_encode_decode: "Enum_encode (Enum_decode n) = n"
  by (auto simp: Enum_encode_def Enum_decode_def find_Some_iff split: option.splits)

section \<open>The item header\<close>

lemma Enum_decode_value: "Enum_decode (HIDPrefix_value p) = EnumIntegerString p"
  by (cases p) (simp_all add: Enum_decode_def HIDPrefix_members_def)

lemma HIDPrefix_value_less: "HIDPrefix_value p < 64"
  by (cases p) simp_all

lemma bHeader_parse_Cons:
  "bHeader_parse (b # rest) =
     Inr (\<lparr>prefix = Enum_decode (unat (drop_bit 2 b)), bSize = unat (take_bit 2 b)\<rparr>, rest)"
  by (simp add: bHeader_parse_def Let_def bits2integer_take6 bits2integer_drop6)

lemma BitsInteger_build_bits2integer:
  "BitsInteger_build (length bits) (bits2integer bits) = Inr bits"
  by (simp add: BitsInteger_build_def bits2integer_less integer2bits_bits2integer)

lemma bHeader_build_int_byte:
  "bHeader_build_int (unat (drop_bit 2 b)) (unat (take_bit 2 b)) = Inr [b]"
proof -
  let ?bits = "byte2bits b"
  have p: "BitsInteger_build 6 (unat (drop_bit 2 b)) = Inr (take 6 ?bits)"
    using BitsInteger_build_bits2integer [of "take 6 ?bits"]
    by (simp add: bits2integer_take6 length_byte2bits)
  have s: "BitsInteger_build 2 (unat (take_bit 2 b)) = Inr (drop 6 ?bits)"
    using BitsInteger_build_bits2integer [of "drop 6 ?bits"]
    by (simp add: bits2integer_drop6 length_byte2bits)
  have "bits2bytes (take 6 ?bits @ drop 6 ?bits) = [b]"
    using bits2bytes_byte2bits [of b "[]"] by simp
  with p s show ?thesis
    by (simp add: bHeader_build_int_def)
qed

lemma header_byte_fields:
  assumes "p < 64" "s < 4" "b = (of_nat (4 * p + s) :: byte)"
  shows "unat (drop_bit 2 b) = p \<and> unat (take_bit 2 b) = s"
proof -
  have u: "unat b = 4 * p + s"
    using assms by (simp only: unat_of_nat) simp
  have "unat (drop_bit 2 b) = p"
    using assms(1,2) by (simp add: drop_bit_eq_div unat_div u)
  moreover have "unat (take_bit 2 b) = s"
    using assms(1,2) by (simp add: take_bit_eq_mod unat_mod u)
  ultimately show ?thesis ..
qed

text \<open>
  C7. Building the header of a prefix \<open>p\<close> of the enumeration and a size class
  \<open>s\<close> in \<open>{0,1,2,3}\<close> gives one byte, and parsing that byte gives \<open>p\<close> and \<open>s\<close> back.
  The byte carries \<open>p\<close> in its top six bits and \<open>s\<close> in its bottom two bits. (A prefix
  given as a \<open>HIDPrefix\<close> member is encoded by its integer value, as the parsed form
  \<open>EnumIntegerString\<close> is.)
\<close>

theorem bHeader_roundtrip:
  assumes "s < 4"
  shows "\<exists>b. bHeader_build \<lparr>prefix = EnumIntegerString p, bSize = s\<rparr> = Inr [b]
           \<and> bHeader_parse (b # rest) = Inr (\<lparr>prefix = EnumIntegerString p, bSize = s\<rparr>, rest)
           \<and> unat (drop_bit 2 b) = HIDPrefix_value p \<and> unat (take_bit 2 b) = s"
proof -
  define b :: byte where "b = of_nat (4 * HIDPrefix_value p + s)"
  have f: "unat (drop_bit 2 b) = HIDPrefix_value p \<and> unat (take_bit 2 b) = s"
    by (rule header_byte_fields [OF HIDPrefix_value_less assms b_def])
  have "bHeader_build \<lparr>prefix = EnumIntegerString p, bSize = s\<rparr> = Inr [b]"
    using bHeader_build_int_byte [of b] by (simp add: bHeader_build_def Enum_encode_def f)
  moreover have "bHeader_parse (b # rest) = Inr (\<lparr>prefix = EnumIntegerString p, bSize = s\<rparr>, rest)"
    by (simp add: bHeader_parse_Cons f Enum_decode_value)
  ultimately show ?thesis using f by blast
qed

theorem bHeader_roundtrip_witness:
  "(1::nat) < 4 \<and>
   (\<exists>b. bHeader_build \<lparr>prefix = EnumIntegerString INPUT, bSize = 1\<rparr> = Inr [b]
      \<and> bHeader_parse [b, 2] = Inr (\<lparr>prefix = EnumIntegerString INPUT, bSize = 1\<rparr>, [2])
      \<and> unat (drop_bit 2 b) = HIDPrefix_value INPUT \<and> unat (take_bit 2 b) = 1)"
proof -
  have h: "(1::nat) < 4" by simp
  show ?thesis using h bHeader_roundtrip [OF h, of INPUT "[2]"] by simp
qed

section \<open>Parsing and building items\<close>

lemma distinct_ItemFlags: "distinct ItemFlags1" "distinct ItemFlags2"
  by (simp_all add: ItemFlags1_def ItemFlags2_def)

lemma length_ItemFlags: "length ItemFlags1 = 8" "length ItemFlags2 = 16"
  by (simp_all add: ItemFlags1_def ItemFlags2_def)

lemma BitStruct_roundtrip:
  assumes "distinct names" "length names = 8 * n" "n \<le> length stream"
  shows "BitStruct_parse names stream = Inr (zip names (bytes2bits (take n stream)), drop n stream)"
    and "BitStruct_build names (zip names (bytes2bits (take n stream))) = Inr (take n stream)"
proof -
  have n: "BitStruct_sizeof names = n"
    using assms(2) by (simp add: BitStruct_sizeof_def)
  show "BitStruct_parse names stream = Inr (zip names (bytes2bits (take n stream)), drop n stream)"
    using assms(3) by (simp add: BitStruct_parse_def n)
  have "length (bytes2bits (take n stream)) = length names"
    using assms(2,3) by (simp add: length_bytes2bits)
  then have "Struct_build_flags names (zip names (bytes2bits (take n stream)))
               = Inr (bytes2bits (take n stream))"
    using assms(1) by (simp add: Struct_build_flags_zip)
  then show "BitStruct_build names (zip names (bytes2bits (take n stream))) = Inr (take n stream)"
    by (simp add: BitStruct_build_def bits2bytes_bytes2bits)
qed

lemma subcon_roundtrip:
  assumes "wf_subcon sc" "subcon_sizeof sc \<le> length stream"
  shows "\<exists>d. subcon_parse sc stream = Inr (d, drop (subcon_sizeof sc) stream)
          \<and> subcon_build sc d = Inr (take (subcon_sizeof sc) stream)"
proof (cases sc)
  case (ByteArray n)
  with assms show ?thesis
    by (simp add: subcon_parse_def subcon_build_def subcon_sizeof_def)
next
  case (BitStruct names)
  let ?n = "BitStruct_sizeof names"
  have d: "distinct names" and l: "length names = 8 * ?n" and n: "?n \<le> length stream"
    using assms BitStruct by (auto simp: wf_subcon_def subcon_sizeof_def BitStruct_sizeof_def)
  show ?thesis
    using BitStruct_roundtrip [OF d l n] BitStruct
    by (simp add: subcon_parse_def subcon_build_def subcon_sizeof_def)
qed

lemma take_bit2_less: "unat (take_bit 2 (h :: byte)) < 4"
  using take_bit_nat_less_exp [of 2 "unat h"] by (simp add: unsigned_take_bit_eq)

lemma flagged_value_iff:
  "HIDPrefix_value p \<in> {HIDPrefix_value INPUT, HIDPrefix_value OUTPUT, HIDPrefix_value FEATURE}
     \<longleftrightarrow> p \<in> {INPUT, OUTPUT, FEATURE}"
  by (cases p) simp_all

lemma data_subcon_flagged:
  "p \<in> {INPUT, OUTPUT, FEATURE} \<Longrightarrow>
   data_subcon \<lparr>prefix = EnumIntegerString p, bSize = s\<rparr> = Inr (hid_item_flags s)"
  unfolding data_subcon_def HasItemFlags_def by (simp only: flagged_value_iff) simp

lemma data_subcon_plain:
  "p \<notin> {INPUT, OUTPUT, FEATURE} \<Longrightarrow> s < 4 \<Longrightarrow>
   data_subcon \<lparr>prefix = EnumIntegerString p, bSize = s\<rparr>
     = Inr (Some (ByteArray (hid_item_length ! s)))"
  unfolding data_subcon_def HasItemFlags_def
  by (simp only: flagged_value_iff) (simp add: hid_item_length_def)

lemma hid_item_flags_simps:
  "hid_item_flags 0 = Some (ByteArray 0)"
  "hid_item_flags 1 = Some (BitStruct ItemFlags1)"
  "hid_item_flags (Suc 0) = Some (BitStruct ItemFlags1)"
  "hid_item_flags 2 = Some (BitStruct ItemFlags2)"
  "hid_item_flags 3 = Some (ByteArray 4)"
  "3 < s \<Longrightarrow> hid_item_flags s = None"
  by (simp_all add: hid_item_flags_def)

lemma less4_cases: "s < 4 \<Longrightarrow> s = 0 \<or> s = 1 \<or> s = 2 \<or> s = (3::nat)"
  by arith

lemma hid_item_flags_sizeof:
  assumes "s < 4"
  shows "\<exists>sc. hid_item_flags s = Some sc \<and> wf_subcon sc \<and> subcon_sizeof sc = hid_item_length ! s"
  using less4_cases [OF assms]
  by (elim disjE)
    (simp_all add: hid_item_flags_simps wf_subcon_def subcon_sizeof_def BitStruct_sizeof_def
      distinct_ItemFlags length_ItemFlags hid_item_length_def)

lemma data_subcon_member:
  assumes "s < 4"
  shows "\<exists>sc. data_subcon \<lparr>prefix = EnumIntegerString p, bSize = s\<rparr> = Inr (Some sc)
            \<and> wf_subcon sc \<and> subcon_sizeof sc = hid_item_length ! s"
proof (cases "p \<in> {INPUT, OUTPUT, FEATURE}")
  case True
  then show ?thesis
    using hid_item_flags_sizeof [OF assms] data_subcon_flagged [OF True, of s] by simp
next
  case False
  then show ?thesis
    using data_subcon_plain [OF False assms] by (simp add: wf_subcon_def subcon_sizeof_def)
qed

lemma ReportDescriptorItem_roundtrip:
  assumes "unat (drop_bit 2 h) \<in> HIDPrefix_value ` set HIDPrefix_members"
    and "hid_item_length ! unat (take_bit 2 h) \<le> length rest"
  shows "\<exists>it. ReportDescriptorItem_parse (h # rest)
                = Inr (it, drop (hid_item_length ! unat (take_bit 2 h)) rest)
            \<and> ReportDescriptorItem_build it
                = Inr (h # take (hid_item_length ! unat (take_bit 2 h)) rest)"
proof -
  let ?s = "unat (take_bit 2 h)"
  from assms(1) obtain p where p: "unat (drop_bit 2 h) = HIDPrefix_value p"
    by auto
  let ?hd = "\<lparr>prefix = EnumIntegerString p, bSize = ?s\<rparr>"
  have hp: "bHeader_parse (h # rest) = Inr (?hd, rest)"
    by (simp add: bHeader_parse_Cons p Enum_decode_value)
  have hb: "bHeader_build ?hd = Inr [h]"
    using bHeader_build_int_byte [of h] by (simp add: bHeader_build_def Enum_encode_def p)
  obtain sc where sc: "data_subcon ?hd = Inr (Some sc)" "wf_subcon sc"
      "subcon_sizeof sc = hid_item_length ! ?s"
    using data_subcon_member [OF take_bit2_less] by blast
  obtain d where d: "subcon_parse sc rest = Inr (d, drop (hid_item_length ! ?s) rest)"
      "subcon_build sc d = Inr (take (hid_item_length ! ?s) rest)"
    using subcon_roundtrip [OF sc(2), of rest] assms(2) sc(3) by auto
  let ?it = "\<lparr>bHeader = ?hd, data = d\<rparr>"
  have "ReportDescriptorItem_parse (h # rest) = Inr (?it, drop (hid_item_length ! ?s) rest)"
    by (simp add: ReportDescriptorItem_parse_def hp data_parse_def sc(1) d(1))
  moreover have "ReportDescriptorItem_build ?it = Inr (h # take (hid_item_length ! ?s) rest)"
    by (simp add: ReportDescriptorItem_build_def hb data_build_def sc(1) d(2))
  ultimately show ?thesis by blast
qed

lemma ReportDescriptor_build_parse:
  "valid_encoding b \<Longrightarrow> ReportDescriptor_build (ReportDescriptor_parse b) = Inr b"
proof (induction b rule: valid_encoding.induct)
  case 1
  have "ReportDescriptor_parse [] = []"
    by (simp add: ReportDescriptorItem_parse_def bHeader_parse_def)
  then show ?case by simp
next
  case (2 h rest)
  let ?n = "hid_item_length ! unat (take_bit 2 h)"
  from "2.prems" have v: "unat (drop_bit 2 h) \<in> HIDPrefix_value ` set HIDPrefix_members"
      "?n \<le> length rest" "valid_encoding (drop ?n rest)"
    by simp_all
  obtain it where it: "ReportDescriptorItem_parse (h # rest) = Inr (it, drop ?n rest)"
      "ReportDescriptorItem_build it = Inr (h # take ?n rest)"
    using ReportDescriptorItem_roundtrip [OF v(1,2)] by blast
  have "ReportDescriptor_build (ReportDescriptor_parse (drop ?n rest)) = Inr (drop ?n rest)"
    using "2.IH" v(3) by simp
  with it show ?case by simp
qed

lemma subcon_parse_append:
  "subcon_parse sc stream = Inr (d, r) \<Longrightarrow> subcon_parse sc (stream @ x) = Inr (d, r @ x)"
  by (auto simp: subcon_parse_def BitStruct_parse_def Let_def split: subcon.splits if_splits)

lemma ReportDescriptorItem_parse_append:
  assumes "ReportDescriptorItem_parse stream = Inr (it, r)"
  shows "ReportDescriptorItem_parse (stream @ x) = Inr (it, r @ x)"
proof -
  from assms obtain h rest where s: "stream = h # rest"
    by (cases stream) (auto simp: ReportDescriptorItem_parse_def bHeader_parse_def)
  let ?hd = "\<lparr>prefix = Enum_decode (unat (drop_bit 2 h)), bSize = unat (take_bit 2 h)\<rparr>"
  from assms s obtain d where d: "data_parse ?hd rest = Inr (d, r)" "it = \<lparr>bHeader = ?hd, data = d\<rparr>"
    by (auto simp: ReportDescriptorItem_parse_def bHeader_parse_Cons split: sum.splits)
  have "data_parse ?hd (rest @ x) = Inr (d, r @ x)"
    using d(1) by (auto simp: data_parse_def subcon_parse_append split: sum.splits option.splits)
  with d(2) s show ?thesis
    by (simp add: ReportDescriptorItem_parse_def bHeader_parse_Cons)
qed

lemma ReportDescriptor_parse_append:
  "valid_encoding b \<Longrightarrow>
   ReportDescriptor_parse (b @ x) = ReportDescriptor_parse b @ ReportDescriptor_parse x"
proof (induction b rule: valid_encoding.induct)
  case 1
  have "ReportDescriptor_parse [] = []"
    by (simp add: ReportDescriptorItem_parse_def bHeader_parse_def)
  then show ?case by simp
next
  case (2 h rest)
  let ?n = "hid_item_length ! unat (take_bit 2 h)"
  from "2.prems" have v: "unat (drop_bit 2 h) \<in> HIDPrefix_value ` set HIDPrefix_members"
      "?n \<le> length rest" "valid_encoding (drop ?n rest)"
    by simp_all
  obtain it where it: "ReportDescriptorItem_parse (h # rest) = Inr (it, drop ?n rest)"
    using ReportDescriptorItem_roundtrip [OF v(1,2)] by blast
  have it': "ReportDescriptorItem_parse ((h # rest) @ x) = Inr (it, drop ?n rest @ x)"
    by (rule ReportDescriptorItem_parse_append [OF it])
  have "ReportDescriptor_parse (drop ?n rest @ x)
          = ReportDescriptor_parse (drop ?n rest) @ ReportDescriptor_parse x"
    using "2.IH" v(3) by simp
  with it it' show ?case by simp
qed

lemma subcon_parse_short:
  "length stream < subcon_sizeof sc \<Longrightarrow> subcon_parse sc stream = Inl StreamError"
  by (auto simp: subcon_parse_def subcon_sizeof_def BitStruct_parse_def Let_def split: subcon.splits)

lemma ReportDescriptorItem_parse_truncated:
  assumes "unat (drop_bit 2 h) \<in> HIDPrefix_value ` set HIDPrefix_members"
    and "length rest < hid_item_length ! unat (take_bit 2 h)"
  shows "ReportDescriptorItem_parse (h # rest) = Inl StreamError"
proof -
  let ?s = "unat (take_bit 2 h)"
  from assms(1) obtain p where p: "unat (drop_bit 2 h) = HIDPrefix_value p"
    by auto
  let ?hd = "\<lparr>prefix = EnumIntegerString p, bSize = ?s\<rparr>"
  have hp: "bHeader_parse (h # rest) = Inr (?hd, rest)"
    by (simp add: bHeader_parse_Cons p Enum_decode_value)
  obtain sc where sc: "data_subcon ?hd = Inr (Some sc)"
      "subcon_sizeof sc = hid_item_length ! ?s"
    using data_subcon_member [OF take_bit2_less] by blast
  have "subcon_parse sc rest = Inl StreamError"
    using assms(2) sc(2) by (simp add: subcon_parse_short)
  then show ?thesis
    by (simp add: ReportDescriptorItem_parse_def hp data_parse_def sc(1))
qed

lemma data_subcon_ItemFlags2_iff:
  "data_subcon \<lparr>prefix = EnumIntegerString p, bSize = s\<rparr> = Inr (Some (BitStruct ItemFlags2))
     \<longleftrightarrow> p \<in> {INPUT, OUTPUT, FEATURE} \<and> s = 2"
proof (cases "p \<in> {INPUT, OUTPUT, FEATURE}")
  case True
  have ne: "ItemFlags1 \<noteq> ItemFlags2"
    using length_ItemFlags by auto
  have "hid_item_flags s = Some (BitStruct ItemFlags2) \<longleftrightarrow> s = 2"
  proof (cases "s < 4")
    case True
    then show ?thesis
      using less4_cases [OF True] ne by (auto simp: hid_item_flags_simps)
  next
    case False
    then show ?thesis by (simp add: hid_item_flags_simps)
  qed
  with True show ?thesis
    using data_subcon_flagged [OF True, of s] by simp
next
  case False
  then show ?thesis
    unfolding data_subcon_def HasItemFlags_def
    by (simp only: flagged_value_iff) simp
qed

section \<open>The claims about the codec\<close>

text \<open>
  C1. For every validly encoded report descriptor buffer \<open>b\<close>, parsing \<open>b\<close> into
  its items and building that item sequence again gives exactly \<open>b\<close>.
\<close>

theorem ReportDescriptor_roundtrip:
  "valid_encoding b \<Longrightarrow> ReportDescriptor_build (ReportDescriptor_parse b) = Inr b"
  by (rule ReportDescriptor_build_parse)

theorem ReportDescriptor_roundtrip_witness:
  "valid_encoding [0x05, 0x01, 0x81, 0x02, 0x82, 0x01, 0x02, 0xc0] \<and>
   ReportDescriptor_build (ReportDescriptor_parse [0x05, 0x01, 0x81, 0x02, 0x82, 0x01, 0x02, 0xc0])
     = Inr [0x05, 0x01, 0x81, 0x02, 0x82, 0x01, 0x02, 0xc0]"
proof -
  have v: "valid_encoding [0x05, 0x01, 0x81, 0x02, 0x82, 0x01, 0x02, 0xc0]"
    by code_simp
  show ?thesis using v ReportDescriptor_roundtrip [OF v] by simp
qed

text \<open>
  C2, as the code has it. For an item whose prefix is INPUT, OUTPUT or FEATURE, the
  payload is parsed as a flag record exactly when the size class selects a payload of 1
  or 2 bytes (size classes 1 and 2: the one-byte and the two-byte record), and as the
  plain list of its bytes exactly when the size class selects 0 or 4 bytes (size
  classes 0 and 3).
\<close>

theorem data_parse_flagged:
  assumes "p \<in> {INPUT, OUTPUT, FEATURE}" and "s < 4"
    and "hid_item_length ! s \<le> length stream"
  shows "data_parse \<lparr>prefix = EnumIntegerString p, bSize = s\<rparr> stream =
           Inr (if hid_item_length ! s \<in> {1, 2}
                then Container (zip (if s = 1 then ItemFlags1 else ItemFlags2)
                                    (bytes2bits (take (hid_item_length ! s) stream)))
                else ListContainer (take (hid_item_length ! s) stream),
                drop (hid_item_length ! s) stream)"
  using less4_cases [OF assms(2)] assms(3) data_subcon_flagged [OF assms(1), of s]
  by (elim disjE)
    (auto simp: data_parse_def hid_item_flags_simps subcon_parse_def BitStruct_parse_def
      BitStruct_sizeof_def length_ItemFlags hid_item_length_def)

theorem data_parse_flagged_witness:
  "INPUT \<in> {INPUT, OUTPUT, FEATURE} \<and> (3::nat) < 4 \<and> hid_item_length ! 3 \<le> length [1, 2, 3, 4 :: byte]
   \<and> data_parse \<lparr>prefix = EnumIntegerString INPUT, bSize = 3\<rparr> [1, 2, 3, 4]
        = Inr (ListContainer [1, 2, 3, 4], [])"
proof -
  have a: "INPUT \<in> {INPUT, OUTPUT, FEATURE}" by simp
  have b: "(3::nat) < 4" by simp
  have c: "hid_item_length ! 3 \<le> length [1, 2, 3, 4 :: byte]" by (simp add: hid_item_length_def)
  show ?thesis
    using a b c data_parse_flagged [OF a b c] by (simp add: hid_item_length_def)
qed

text \<open>
  The claim as written fails: under the INPUT prefix a two-byte payload (size class 2)
  is parsed as a flag record, not as plain bytes.
\<close>

theorem data_parse_flagged_counterexample:
  "ReportDescriptorItem_parse [0x82, 0x01, 0x02] =
     Inr (\<lparr>bHeader = \<lparr>prefix = EnumIntegerString INPUT, bSize = 2\<rparr>,
           data = Container
             [(''reserved6'', False), (''reserved5'', False), (''reserved4'', False),
              (''reserved3'', False), (''reserved2'', False), (''reserved1'', False),
              (''reserved0'', False), (''bitfield_bufferedbytes'', True),
              (''volatile'', False), (''null'', False), (''nPreferred'', False),
              (''nLinear'', False), (''wrap'', False), (''absolute_relative'', False),
              (''array_variable'', True), (''data_constant'', False)]\<rparr>, [])
   \<and> hid_item_length ! 2 = 2"
  by code_simp

text \<open>
  C3, as the code has it. When a buffer consists of validly encoded items followed by
  a header byte, with a prefix of the enumeration, that declares more payload bytes
  than remain, parsing that last item alone fails with a stream error, but parsing the
  report descriptor does not fail: it returns exactly the items before the truncated
  one, and the partial trailing item is dropped (building the result gives the buffer
  without it).
\<close>

theorem ReportDescriptor_parse_truncated:
  assumes "valid_encoding b"
    and "unat (drop_bit 2 h) \<in> HIDPrefix_value ` set HIDPrefix_members"
    and "length rest < hid_item_length ! unat (take_bit 2 h)"
  shows "ReportDescriptorItem_parse (h # rest) = Inl StreamError
       \<and> ReportDescriptor_parse (b @ h # rest) = ReportDescriptor_parse b
       \<and> ReportDescriptor_build (ReportDescriptor_parse (b @ h # rest)) = Inr b"
proof -
  have t: "ReportDescriptorItem_parse (h # rest) = Inl StreamError"
    by (rule ReportDescriptorItem_parse_truncated [OF assms(2,3)])
  then have "ReportDescriptor_parse (h # rest) = []"
    by simp
  then have "ReportDescriptor_parse (b @ h # rest) = ReportDescriptor_parse b"
    using ReportDescriptor_parse_append [OF assms(1), of "h # rest"] by simp
  moreover have "ReportDescriptor_build (ReportDescriptor_parse b) = Inr b"
    using assms(1) by (rule ReportDescriptor_build_parse)
  ultimately show ?thesis using t by simp
qed

theorem ReportDescriptor_parse_truncated_witness:
  "valid_encoding [0x05, 0x01]
   \<and> unat (drop_bit 2 (0x95 :: byte)) \<in> HIDPrefix_value ` set HIDPrefix_members
   \<and> length ([] :: byte list) < hid_item_length ! unat (take_bit 2 (0x95 :: byte))
   \<and> ReportDescriptorItem_parse [0x95] = Inl StreamError
   \<and> ReportDescriptor_parse [0x05, 0x01, 0x95] = ReportDescriptor_parse [0x05, 0x01]
   \<and> ReportDescriptor_build (ReportDescriptor_parse [0x05, 0x01, 0x95]) = Inr [0x05, 0x01]"
proof -
  have a: "valid_encoding [0x05, 0x01]"
    by code_simp
  have b: "unat (drop_bit 2 (0x95 :: byte)) \<in> HIDPrefix_value ` set HIDPrefix_members"
    by code_simp
  have c: "length ([] :: byte list) < hid_item_length ! unat (take_bit 2 (0x95 :: byte))"
    by code_simp
  show ?thesis
    using a b c ReportDescriptor_parse_truncated [OF a b c, unfolded append.simps] by blast
qed

text \<open>
  The claim as written fails: the buffer 05 01 95 ends in a header that declares one
  payload byte where none remains, and parsing returns the one item before it.
\<close>

theorem ReportDescriptor_parse_truncated_counterexample:
  "ReportDescriptor_parse [0x05, 0x01, 0x95] =
     [\<lparr>bHeader = \<lparr>prefix = EnumIntegerString USAGE_PAGE, bSize = 1\<rparr>,
       data = ListContainer [0x01]\<rparr>]"
  by code_simp

text \<open>
  C5, as the code has it. The extended flag record has the same eight flags, in the
  same bit positions as the one-byte record, in its second byte; the ninth flag
  \<open>bitfield_bufferedbytes\<close> is the lowest bit of its first byte, and the seven bits
  above it are reserved. The record fills two bytes, and it is the format of the
  payload exactly when the prefix is INPUT, OUTPUT or FEATURE and the size class is 2,
  which selects two payload bytes.
\<close>

theorem ItemFlags2_layout:
  "BitStruct_parse ItemFlags2 (b0 # b1 # rest) =
     Inr ([(''reserved6'', bit b0 7), (''reserved5'', bit b0 6), (''reserved4'', bit b0 5),
           (''reserved3'', bit b0 4), (''reserved2'', bit b0 3), (''reserved1'', bit b0 2),
           (''reserved0'', bit b0 1), (''bitfield_bufferedbytes'', bit b0 0),
           (''volatile'', bit b1 7), (''null'', bit b1 6), (''nPreferred'', bit b1 5),
           (''nLinear'', bit b1 4), (''wrap'', bit b1 3), (''absolute_relative'', bit b1 2),
           (''array_variable'', bit b1 1), (''data_constant'', bit b1 0)], rest)
   \<and> BitStruct_sizeof ItemFlags2 = 2
   \<and> (data_subcon \<lparr>prefix = EnumIntegerString p, bSize = s\<rparr> = Inr (Some (BitStruct ItemFlags2))
        \<longleftrightarrow> p \<in> {INPUT, OUTPUT, FEATURE} \<and> s = 2)"
proof -
  have "BitStruct_sizeof ItemFlags2 = 2"
    by (simp add: BitStruct_sizeof_def ItemFlags2_def)
  moreover have "BitStruct_parse ItemFlags2 (b0 # b1 # rest) =
     Inr ([(''reserved6'', bit b0 7), (''reserved5'', bit b0 6), (''reserved4'', bit b0 5),
           (''reserved3'', bit b0 4), (''reserved2'', bit b0 3), (''reserved1'', bit b0 2),
           (''reserved0'', bit b0 1), (''bitfield_bufferedbytes'', bit b0 0),
           (''volatile'', bit b1 7), (''null'', bit b1 6), (''nPreferred'', bit b1 5),
           (''nLinear'', bit b1 4), (''wrap'', bit b1 3), (''absolute_relative'', bit b1 2),
           (''array_variable'', bit b1 1), (''data_constant'', bit b1 0)], rest)"
    by (simp add: BitStruct_parse_def BitStruct_sizeof_def ItemFlags2_def bytes2bits_def byte2bits_def)
  ultimately show ?thesis
    using data_subcon_ItemFlags2_iff [of p s] by simp
qed

text \<open>
  The claim as written fails: under a size class that selects four payload bytes the
  payload of an INPUT item is the plain list of the four bytes, and the extended record
  is two bytes long.
\<close>

theorem ItemFlags2_layout_counterexample:
  "data_parse \<lparr>prefix = EnumIntegerString INPUT, bSize = 3\<rparr> [0x02, 0x01, 0x00, 0x00]
     = Inr (ListContainer [0x02, 0x01, 0x00, 0x00], [])
   \<and> hid_item_length ! 3 = 4
   \<and> BitStruct_sizeof ItemFlags2 = 2"
  by code_simp

text \<open>
  C6, as the code has it. In the one-byte flag record the eight flags occupy the
  byte from the least significant bit to the most significant bit in the order
  data_constant, array_variable, absolute_relative, wrap, nLinear, nPreferred, null,
  volatile: data_constant is bit 0 and volatile is bit 7, on parsing and on building.
\<close>

theorem ItemFlags1_bit_order:
  "BitStruct_parse ItemFlags1 (b # rest) =
     Inr ([(''volatile'', bit b 7), (''null'', bit b 6), (''nPreferred'', bit b 5),
           (''nLinear'', bit b 4), (''wrap'', bit b 3), (''absolute_relative'', bit b 2),
           (''array_variable'', bit b 1), (''data_constant'', bit b 0)], rest)
   \<and> BitStruct_build ItemFlags1
        [(''data_constant'', bit b 0), (''array_variable'', bit b 1),
         (''absolute_relative'', bit b 2), (''wrap'', bit b 3), (''nLinear'', bit b 4),
         (''nPreferred'', bit b 5), (''null'', bit b 6), (''volatile'', bit b 7)] = Inr [b]"
proof -
  have "bits2bytes (byte2bits b) = [b]"
    using bits2bytes_byte2bits [of b "[]"] by simp
  then have "BitStruct_build ItemFlags1
        [(''data_constant'', bit b 0), (''array_variable'', bit b 1),
         (''absolute_relative'', bit b 2), (''wrap'', bit b 3), (''nLinear'', bit b 4),
         (''nPreferred'', bit b 5), (''null'', bit b 6), (''volatile'', bit b 7)] = Inr [b]"
    by (simp add: BitStruct_build_def ItemFlags1_def byte2bits_def)
  moreover have "BitStruct_parse ItemFlags1 (b # rest) =
     Inr ([(''volatile'', bit b 7), (''null'', bit b 6), (''nPreferred'', bit b 5),
           (''nLinear'', bit b 4), (''wrap'', bit b 3), (''absolute_relative'', bit b 2),
           (''array_variable'', bit b 1), (''data_constant'', bit b 0)], rest)"
    by (simp add: BitStruct_parse_def BitStruct_sizeof_def ItemFlags1_def bytes2bits_def byte2bits_def)
  ultimately show ?thesis by simp
qed

text \<open>
  The claim as written fails: in the byte 02 only bit 1 is set; it is the flag
  array_variable, where the order of the claim would make it the flag null.
\<close>

theorem ItemFlags1_bit_order_counterexample:
  "BitStruct_parse ItemFlags1 [0x02] =
     Inr ([(''volatile'', False), (''null'', False), (''nPreferred'', False),
           (''nLinear'', False), (''wrap'', False), (''absolute_relative'', False),
           (''array_variable'', True), (''data_constant'', False)], [])"
  by code_simp

text \<open>
  C8, as the code has it. For a header byte whose top six bits are not the value of a
  member of the prefix enumeration, parsing the header does not fail: it gives the bare
  six-bit integer as the prefix, with the size class. Parsing the item then fails when
  the prefix is tested for the flagged category, so no item with such a prefix is
  produced, and parsing a report descriptor stops before that byte.
\<close>

theorem bHeader_parse_unknown:
  assumes "unat (drop_bit 2 b) \<notin> HIDPrefix_value ` set HIDPrefix_members"
  shows "bHeader_parse (b # rest) =
           Inr (\<lparr>prefix = EnumInteger (unat (drop_bit 2 b)), bSize = unat (take_bit 2 b)\<rparr>, rest)
       \<and> ReportDescriptorItem_parse (b # rest) = Inl AttributeError
       \<and> ReportDescriptor_parse (b # rest) = []"
proof -
  have "find (\<lambda>p. HIDPrefix_value p = unat (drop_bit 2 b)) HIDPrefix_members = None"
  proof -
    have "\<And>p. p \<in> set HIDPrefix_members \<Longrightarrow> HIDPrefix_value p \<noteq> unat (drop_bit 2 b)"
      using assms by (metis imageI)
    then show ?thesis by (simp add: find_None_iff)
  qed
  then have e: "Enum_decode (unat (drop_bit 2 b)) = EnumInteger (unat (drop_bit 2 b))"
    by (simp add: Enum_decode_def)
  have h: "bHeader_parse (b # rest) =
           Inr (\<lparr>prefix = EnumInteger (unat (drop_bit 2 b)), bSize = unat (take_bit 2 b)\<rparr>, rest)"
    by (simp add: bHeader_parse_Cons e)
  then have i: "ReportDescriptorItem_parse (b # rest) = Inl AttributeError"
    by (simp add: ReportDescriptorItem_parse_def data_parse_def data_subcon_def HasItemFlags_def)
  then have "ReportDescriptor_parse (b # rest) = []"
    by simp
  with h i show ?thesis by simp
qed

theorem bHeader_parse_unknown_witness:
  "unat (drop_bit 2 (0xFC :: byte)) \<notin> HIDPrefix_value ` set HIDPrefix_members
   \<and> bHeader_parse [0xFC, 0x00] = Inr (\<lparr>prefix = EnumInteger 63, bSize = 0\<rparr>, [0x00])
   \<and> ReportDescriptorItem_parse [0xFC, 0x00] = Inl AttributeError
   \<and> ReportDescriptor_parse [0xFC, 0x00] = []"
proof -
  have a: "unat (drop_bit 2 (0xFC :: byte)) \<notin> HIDPrefix_value ` set HIDPrefix_members"
    by code_simp
  have "unat (drop_bit 2 (0xFC :: byte)) = 63" "unat (take_bit 2 (0xFC :: byte)) = 0"
    by code_simp+
  then show ?thesis
    using a bHeader_parse_unknown [OF a, of "[0x00]"] by simp
qed

text \<open>
  The claim as written fails: the top six bits of the byte FC are 63, which no member
  has, and parsing the header succeeds with the bare integer 63.
\<close>

theorem bHeader_parse_unknown_counterexample:
  "bHeader_parse [0xFC] = Inr (\<lparr>prefix = EnumInteger 63, bSize = 0\<rparr>, [])"
  by code_simp

section \<open>The claims about the builder\<close>

lemma foldl_add_report_raw:
  "foldl add_report_raw self rs = self\<lparr>reports := reports self @ rs\<rparr>"
  by (induction rs arbitrary: self) (simp_all add: add_report_raw_def)

lemma emit_reports_encoding:
  "list_all (\<lambda>r. case r of Bytes b \<Rightarrow> True | Emitter e \<Rightarrow> emit e = Inr (enc e)) rs \<Longrightarrow>
   emit_reports emit rs = Inr (map (report_encoding enc) rs)"
proof (induction rs)
  case Nil
  then show ?case by simp
next
  case (Cons r rs)
  then have "emit_reports emit rs = Inr (map (report_encoding enc) rs)"
    by simp
  moreover have "report_emit emit r = Inr (report_encoding enc r)"
    using Cons.prems by (cases r) simp_all
  ultimately show ?case by simp
qed

lemma pre_emit_encoding:
  assumes "list_all (\<lambda>r. case r of Bytes b \<Rightarrow> True | Emitter e \<Rightarrow> emit e = Inr (enc e)) rs"
  shows "pre_emit emit (foldl add_report_raw (HIDDescriptor_init parent) rs) =
           Inr \<lparr>reports = rs,
                wDescriptorLength = Some (length (concat (map (report_encoding enc) rs))),
                parent_descriptor = parent @ [(concat (map (report_encoding enc) rs), 0x22)]\<rparr>"
  using emit_reports_encoding [OF assms]
  by (simp add: pre_emit_def Let_def foldl_add_report_raw HIDDescriptor_init_def
      add_descriptor_def del: length_concat)

lemma Int16ul_roundtrip:
  assumes "K < 65536"
  shows "Int16ul_parse (of_nat (K mod 256)) (of_nat (K div 256)) = K"
proof -
  have "unat (of_nat (K mod 256) :: byte) = K mod 256"
    by (simp only: unat_of_nat) simp
  moreover have "unat (of_nat (K div 256) :: byte) = K div 256"
    using assms by (simp only: unat_of_nat) simp
  ultimately show ?thesis
    by (simp add: Int16ul_parse_def)
qed

text \<open>
  C4, as the code has it. After the \<open>N\<close> contributions \<open>rs\<close> have been appended
  to a new builder, and when their encodings (raw bytes as they are, every item as its
  \<open>emit\<close> gives it) are \<open>K\<close> bytes in total with \<open>K\<close> below 65536, one call of
  \<open>emit\<close> returns the nine-byte header whose field wDescriptorLength holds \<open>K\<close>,
  and adds exactly one entry to the descriptor collection: the \<open>K\<close> bytes,
  concatenated in the order of appending, under the descriptor type 0x22.
\<close>

theorem HIDDescriptor_emit_length:
  assumes "list_all (\<lambda>r. case r of Bytes b \<Rightarrow> True | Emitter e \<Rightarrow> emit e = Inr (enc e)) rs"
    and "K = length (concat (map (report_encoding enc) rs))"
    and "K < 65536"
  shows "HIDDescriptor_emit emit (foldl add_report_raw (HIDDescriptor_init parent) rs) =
           Inr ([0x09, 0x21, 0x11, 0x01, 0x00, 0x01, 0x22, of_nat (K mod 256), of_nat (K div 256)],
                \<lparr>reports = rs,
                 wDescriptorLength = Some K,
                 parent_descriptor = parent @ [(concat (map (report_encoding enc) rs), 0x22)]\<rparr>)
       \<and> Int16ul_parse (of_nat (K mod 256)) (of_nat (K div 256)) = K"
  using assms(2,3) pre_emit_encoding [OF assms(1), of parent] Int16ul_roundtrip [OF assms(3)]
  by (simp add: HIDDescriptor_emit_def HIDDescriptor_build_def del: length_concat)

theorem HIDDescriptor_emit_length_witness:
  "list_all (\<lambda>r. case r of Bytes b \<Rightarrow> True
                | Emitter e \<Rightarrow> (Inr [0x95, 0x08] :: error + byte list) = Inr [0x95, 0x08])
     [Bytes [0x05, 0x01],
      Emitter \<lparr>bHeader = \<lparr>prefix = REPORT_COUNT, bSize = 1\<rparr>, data = [PyInt 8]\<rparr>,
      Bytes [0xc0]]
   \<and> (5::nat) < 65536
   \<and> HIDDescriptor_emit (\<lambda>e. Inr [0x95, 0x08])
        (foldl add_report_raw (HIDDescriptor_init [])
           [Bytes [0x05, 0x01],
            Emitter \<lparr>bHeader = \<lparr>prefix = REPORT_COUNT, bSize = 1\<rparr>, data = [PyInt 8]\<rparr>,
            Bytes [0xc0]]) =
       Inr ([0x09, 0x21, 0x11, 0x01, 0x00, 0x01, 0x22, 0x05, 0x00],
            \<lparr>reports = [Bytes [0x05, 0x01],
                Emitter \<lparr>bHeader = \<lparr>prefix = REPORT_COUNT, bSize = 1\<rparr>, data = [PyInt 8]\<rparr>,
                Bytes [0xc0]],
             wDescriptorLength = Some 5,
             parent_descriptor = [([0x05, 0x01, 0x95, 0x08, 0xc0], 0x22)]\<rparr>)
   \<and> Int16ul_parse 0x05 0x00 = 5"
proof -
  let ?rs = "[Bytes [0x05, 0x01],
             Emitter \<lparr>bHeader = \<lparr>prefix = REPORT_COUNT, bSize = 1\<rparr>, data = [PyInt 8]\<rparr>,
             Bytes [0xc0]]"
  have a: "list_all (\<lambda>r. case r of Bytes b \<Rightarrow> True
                | Emitter e \<Rightarrow> (\<lambda>e. Inr [0x95, 0x08]) e
                    = (Inr ((\<lambda>e. [0x95, 0x08]) e) :: error + byte list)) ?rs"
    by simp
  have b: "(5::nat) = length (concat (map (report_encoding (\<lambda>e. [0x95, 0x08])) ?rs))"
    by simp
  have c: "(5::nat) < 65536"
    by simp
  show ?thesis
    using a c HIDDescriptor_emit_length [OF a b c, of "[]"] by simp
qed

text \<open>
  The claim as written fails: after one raw contribution of 65536 bytes the length does
  not fit the two bytes of the field, and \<open>emit\<close> raises instead of returning a header.
\<close>

theorem HIDDescriptor_emit_length_counterexample:
  "HIDDescriptor_emit (\<lambda>e. Inr [])
     (add_report_raw (HIDDescriptor_init []) (Bytes (replicate 65536 0)))
     = Inl FormatFieldError"
  by (simp add: HIDDescriptor_emit_def HIDDescriptor_build_def pre_emit_def Let_def
      add_report_raw_def HIDDescriptor_init_def add_descriptor_def)

text \<open>
  C9. The code at the call that leaves every flag parameter unset: \<open>linear\<close>
  defaults to false, so the bit nLinear is 1 and the flag byte is 0x12; with
  \<open>linear\<close> true, as the claim has the default, the byte is 0x02.
\<close>

theorem add_inpout_item_default_flags:
  "inpout_item_flags inpout_defaults = Inr [0x12]
   \<and> inpout_item_flags (inpout_defaults\<lparr>linear := True\<rparr>) = Inr [0x02]"
  by code_simp

text \<open>
  C10. The code at every call of \<open>add_inpout_item\<close> with
  \<open>bitfield_bufferedbytes\<close> true: the flags given to the two-byte record are the
  eight named flags only, its first field \<open>reserved6\<close> is missing, building the
  flag bytes raises, and \<open>add_report_item\<close> is never reached, so no item is appended.
  Had the two flag bytes been built, \<open>add_report_item\<close> would have given the item
  the size class 1, as the claim says: it counts the payload arguments (one bytes
  object, whatever its length), not the bytes.
\<close>

theorem add_inpout_item_bufferedbytes:
  "add_inpout_item self item (kw\<lparr>bitfield_bufferedbytes := True\<rparr>) = Inl (KeyError ''reserved6'')
   \<and> add_report_item self item [PyBytes [b0, b1]] =
       Inr (self\<lparr>reports := reports self @
              [Emitter \<lparr>bHeader = \<lparr>prefix = item, bSize = 1\<rparr>,
                        data = [PyBytes [b0, b1]]\<rparr>]\<rparr>)"
  by (simp add: add_inpout_item_def inpout_item_flags_def BitStruct_build_def ItemFlags2_def
      add_report_item_def hid_item_length_def)

end
